theory Spec2Isabelle
  imports Complex_Main "HOL-Library.Multiset"
begin

section \<open>Python string operations used by the servers\<close>

text \<open>
  A Python \<open>str\<close> is modelled as a \<open>string\<close>; each \<open>char\<close> stands for one character of
  the \<open>str\<close>, so \<open>length\<close> is Python's \<open>len\<close>. The protocol is ASCII text.
\<close>

text \<open>The characters \<open>str.split()\<close> and \<open>str.strip()\<close> treat as whitespace.\<close>

definition whitespace :: "char list" where
  "whitespace = [CHR 0x09, CHR 0x0A, CHR 0x0B, CHR 0x0C, CHR 0x0D,
                 CHR 0x1C, CHR 0x1D, CHR 0x1E, CHR 0x1F, CHR 0x20, CHR 0x85, CHR 0xA0]"

definition is_space :: "char \<Rightarrow> bool" where
  "is_space c = (c \<in> set whitespace)"

text \<open>\<open>s.startswith(p)\<close>\<close>

fun startswith :: "string \<Rightarrow> string \<Rightarrow> bool" where
  "startswith s [] = True"
| "startswith [] (p # ps) = False"
| "startswith (c # cs) (p # ps) = (c = p \<and> startswith cs ps)"

text \<open>\<open>sub in s\<close> on strings: \<open>sub\<close> occurs in \<open>s\<close> as a contiguous run.\<close>

fun str_in :: "string \<Rightarrow> string \<Rightarrow> bool" where
  "str_in sub [] = (sub = [])"
| "str_in sub (c # cs) = (startswith (c # cs) sub \<or> str_in sub cs)"

text \<open>\<open>s.strip()\<close>\<close>

definition strip :: "string \<Rightarrow> string" where
  "strip s = rev (dropWhile is_space (rev (dropWhile is_space s)))"

text \<open>
  \<open>s.split()\<close>: the maximal runs of non-whitespace characters, in order. \<open>cur\<close> is the
  run being read.
\<close>

fun split_acc :: "string \<Rightarrow> string \<Rightarrow> string list" where
  "split_acc cur [] = (if cur = [] then [] else [cur])"
| "split_acc cur (c # cs) =
     (if is_space c then (if cur = [] then split_acc [] cs else cur # split_acc [] cs)
      else split_acc (cur @ [c]) cs)"

definition split_ws :: "string \<Rightarrow> string list" where
  "split_ws s = split_acc [] s"

text \<open>\<open>s.split(sep)\<close> for a one-character separator: never empty, empty fields kept.\<close>

fun split_on_acc :: "char \<Rightarrow> string \<Rightarrow> string \<Rightarrow> string list" where
  "split_on_acc sep cur [] = [cur]"
| "split_on_acc sep cur (c # cs) =
     (if c = sep then cur # split_on_acc sep [] cs else split_on_acc sep (cur @ [c]) cs)"

definition split_on :: "char \<Rightarrow> string \<Rightarrow> string list" where
  "split_on sep s = split_on_acc sep [] s"

text \<open>\<open>sep.join(xs)\<close>\<close>

fun join_with :: "string \<Rightarrow> string list \<Rightarrow> string" where
  "join_with sep [] = []"
| "join_with sep [x] = x"
| "join_with sep (x # y # ys) = x @ sep @ join_with sep (y # ys)"

text \<open>\<open>xs[i]\<close> for \<open>i \<ge> 0\<close>: \<open>None\<close> is Python's IndexError.\<close>

definition index :: "'a list \<Rightarrow> nat \<Rightarrow> 'a option" where
  "index xs i = (if i < length xs then Some (xs ! i) else None)"

section \<open>file\_server.py: filename validation\<close>

text \<open>
  \<open>validate_filename\<close> returns the conjunction; its callers only test its truth value.
  The empty string is Python's falsy \<open>filename\<close>.
\<close>

definition validate_filename :: "string \<Rightarrow> bool" where
  "validate_filename filename \<longleftrightarrow>
     filename \<noteq> [] \<and>
     \<not> str_in ''/'' filename \<and>
     \<not> str_in [CHR 0x5C] filename \<and>
     \<not> str_in ''..'' filename \<and>
     length filename < 255"

section \<open>file\_server.py: the node and its environment\<close>

text \<open>Exceptions raised by the servers' own code.\<close>

datatype error = ValueError | IndexError | KeyError | OSError

text \<open>
  The outcome of one outbound exchange (connect, \<open>sendall\<close>, \<open>recv\<close>, \<open>decode\<close>):
  the decoded text that \<open>recv\<close> returned, or the text of the exception some step raised.
\<close>

datatype reply = Raised string | Received string

record stored_file =
  content :: string
  mtime :: real

text \<open>
  What a node runs in: its configuration (\<open>SOCK_PORT\<close> is the port as an f-string prints
  it), the regular files by the path handed to the operating system, the names
  \<open>os.listdir(STORAGE)\<close> returns, Python's \<open>str\<close> and \<open>float\<close> on timestamps
  (\<open>float_of\<close> is \<open>None\<close> where \<open>float\<close> raises ValueError; timestamps are finite floats,
  taken as the reals they denote), the peers' answers by host, port and message, and the
  clock that stamps a written file. A path holds a regular file or nothing: directories
  below the storage directory and failures of the local disk are left out.
\<close>

record env =
  HOST :: string
  SOCK_PORT :: string
  STORAGE :: string
  files :: "string \<rightharpoonup> stored_file"
  listdir :: "string list"
  str_float :: "real \<Rightarrow> string"
  float_of :: "string \<Rightarrow> real option"
  peer_query :: "string \<Rightarrow> string \<Rightarrow> string \<Rightarrow> reply"
  peer_fetch :: "string \<Rightarrow> string \<Rightarrow> string \<Rightarrow> reply"
  clock :: real

text \<open>\<open>os.path.join(a, b)\<close> on POSIX.\<close>

definition os_path_join :: "string \<Rightarrow> string \<Rightarrow> string" where
  "os_path_join a b =
     (if startswith b ''/'' then b
      else if a = [] \<or> last a = CHR ''/'' then a @ b
      else a @ ''/'' @ b)"

definition own_address :: "env \<Rightarrow> string" where
  "own_address env = HOST env @ '':'' @ SOCK_PORT env"

definition get_timestamp :: "env \<Rightarrow> string \<Rightarrow> string option" where
  "get_timestamp env filename =
     (if \<not> validate_filename filename then None
      else
        (case files env (os_path_join (STORAGE env) filename) of
           Some f \<Rightarrow>
             Some (''Last-Modified '' @ filename @ '' '' @ str_float env (mtime f) @ '' '' @
                   own_address env)
         | None \<Rightarrow> None))"

subsection \<open>Conflict resolution\<close>

text \<open>The loop variables \<open>latest\<close>, \<open>latest_ts\<close>, \<open>latest_node\<close>.\<close>

type_synonym resolution = "string option \<times> real \<times> string option"

text \<open>
  The body of the \<open>try\<close> in the loop of \<open>latest_timestamp\<close>, for one peer. Every
  exception inside it (also the unpacking of a reply that does not have four fields, and
  \<open>float\<close> on a field that is no number) is caught and logged: the variables stay.
\<close>

definition query_peer :: "env \<Rightarrow> string \<Rightarrow> string \<Rightarrow> string \<Rightarrow> resolution \<Rightarrow> resolution" where
  "query_peer env filename host port st =
     (case peer_query env host port (''Last-Modified-Check '' @ filename @ [CHR 0x0A]) of
        Raised msg \<Rightarrow> st
      | Received raw \<Rightarrow>
          (let response = strip raw in
           if startswith response ''Last-Modified'' then
             (case split_ws response of
                [u, v, timestamp, node] \<Rightarrow>
                  (case float_of env timestamp of
                     None \<Rightarrow> st
                   | Some t \<Rightarrow>
                       if t > fst (snd st) then (Some response, t, Some node) else st)
              | _ \<Rightarrow> st)
           else st))"

text \<open>
  \<open>for host, port in NODES\<close>: an entry that is not a pair raises ValueError outside the
  \<open>try\<close>. The second component lists the peers contacted so far.
\<close>

fun poll :: "env \<Rightarrow> string \<Rightarrow> string list list \<Rightarrow> resolution \<times> (string \<times> string) list \<Rightarrow>
    error + resolution \<times> (string \<times> string) list" where
  "poll env filename [] acc = Inr acc"
| "poll env filename (entry # rest) acc =
     (case entry of
        [host, port] \<Rightarrow>
          poll env filename rest
            (query_peer env filename host port (fst acc), snd acc @ [(host, port)])
      | _ \<Rightarrow> Inl ValueError)"

text \<open>\<open>float(latest.split()[2]) if latest else 0\<close>\<close>

definition local_ts :: "env \<Rightarrow> string option \<Rightarrow> error + real" where
  "local_ts env latest =
     (case latest of
        None \<Rightarrow> Inr 0
      | Some l \<Rightarrow>
          (case index (split_ws l) 2 of
             None \<Rightarrow> Inl IndexError
           | Some field \<Rightarrow>
               (case float_of env field of None \<Rightarrow> Inl ValueError | Some t \<Rightarrow> Inr t)))"

text \<open>
  \<open>latest_timestamp\<close> returns \<open>latest\<close> and \<open>latest_node\<close>; the model also returns the
  peers it has contacted, in order.
\<close>

definition latest_timestamp ::
    "env \<Rightarrow> string list list \<Rightarrow> string \<Rightarrow>
     error + string option \<times> string option \<times> (string \<times> string) list" where
  "latest_timestamp env NODES filename =
     (let latest = get_timestamp env filename in
      case local_ts env latest of
        Inl e \<Rightarrow> Inl e
      | Inr latest_ts \<Rightarrow>
          (case poll env filename NODES ((latest, latest_ts, None), []) of
             Inl e \<Rightarrow> Inl e
           | Inr (st, contacted) \<Rightarrow> Inr (fst st, snd (snd st), contacted)))"

subsection \<open>The read endpoint\<close>

text \<open>\<open>send_file\<close>: the bytes of the file with status 200; a missing file raises.\<close>

definition send_file :: "(string \<rightharpoonup> stored_file) \<Rightarrow> string \<Rightarrow> error + nat \<times> string" where
  "send_file fs filepath =
     (case fs filepath of Some f \<Rightarrow> Inr (200, content f) | None \<Rightarrow> Inl OSError)"

text \<open>
  \<open>get_file\<close> returns the files after the call and either the response (status, body) or
  the exception that left the handler, which the web framework answers with status 500.
  The write of the fetched bytes is taken to succeed.
\<close>

definition get_file ::
    "env \<Rightarrow> string list list \<Rightarrow> string \<Rightarrow> (string \<rightharpoonup> stored_file) \<times> (error + nat \<times> string)" where
  "get_file env NODES filename =
     (if \<not> validate_filename filename then (files env, Inr (400, ''Invalid filename''))
      else
        (case latest_timestamp env NODES filename of
           Inl e \<Rightarrow> (files env, Inl e)
         | Inr (latest, latest_node, contacted) \<Rightarrow>
             (let filepath = os_path_join (STORAGE env) filename in
              if latest = None \<and> files env filepath = None
              then (files env, Inr (404, ''File not found''))
              else
                (case latest_node of
                   None \<Rightarrow> (files env, send_file (files env) filepath)
                 | Some node \<Rightarrow>
                     if node \<noteq> [] \<and> node \<noteq> own_address env then
                       (case split_on CHR '':'' node of
                          [host, port] \<Rightarrow>
                            (case peer_fetch env host port
                                    (''File-Provision-Request '' @ filename @ [CHR 0x0A]) of
                               Raised msg \<Rightarrow>
                                 (files env, Inr (500, ''Error downloading file: '' @ msg))
                             | Received data \<Rightarrow>
                                 (let fs = (files env)
                                        (filepath \<mapsto> \<lparr>content = data, mtime = clock env\<rparr>)
                                  in (fs, send_file fs filepath)))
                        | _ \<Rightarrow> (files env, Inl ValueError))
                     else (files env, send_file (files env) filepath)))))"

definition http_status :: "error + nat \<times> string \<Rightarrow> nat" where
  "http_status r = (case r of Inl e \<Rightarrow> 500 | Inr (status, body) \<Rightarrow> status)"

subsection \<open>The peer request dispatcher\<close>

text \<open>
  The \<open>try\<close> block of \<open>handle_socket_request\<close>: the payloads it hands to
  \<open>conn.sendall\<close>, or the exception it raises (\<open>data.split()[1]\<close> on a request with no
  second field). Writes to the connection are taken to succeed.
\<close>

definition dispatch :: "env \<Rightarrow> string \<Rightarrow> error + string list" where
  "dispatch env data =
     (if startswith data ''Last-Modified-Check'' then
        (case index (split_ws data) 1 of
           None \<Rightarrow> Inl IndexError
         | Some filename \<Rightarrow>
             (case get_timestamp env filename of
                Some response \<Rightarrow> Inr [response]
              | None \<Rightarrow> Inr [''File not found'']))
      else if startswith data ''File-Provision-Request'' then
        (case index (split_ws data) 1 of
           None \<Rightarrow> Inl IndexError
         | Some filename \<Rightarrow>
             (case files env (os_path_join (STORAGE env) filename) of
                Some f \<Rightarrow> Inr [content f]
              | None \<Rightarrow> Inr [''File not found'']))
      else if startswith data ''Index-Listing-Request'' then
        Inr [''Index-Listing'' @ [CHR 0x0A] @ join_with [CHR 0x0A] (listdir env) @ [CHR 0x0A]]
      else Inr [])"

text \<open>Everything \<open>handle_socket_request\<close> writes to the connection, in order.\<close>

definition handle_socket_request :: "env \<Rightarrow> string \<Rightarrow> string list" where
  "handle_socket_request env data =
     (case dispatch env data of
        Inr sent \<Rightarrow> sent
      | Inl e \<Rightarrow> [''Error processing request''])"

text \<open>
  \<open>handle_connection\<close>: \<open>received\<close> is the outcome of \<open>conn.recv(1024).decode('utf-8')\<close>;
  an exception there is logged and nothing is written.
\<close>

definition handle_connection :: "env \<Rightarrow> reply \<Rightarrow> string list" where
  "handle_connection env received =
     (case received of
        Raised msg \<Rightarrow> []
      | Received raw \<Rightarrow> handle_socket_request env (strip raw))"

section \<open>discovery\_server.py\<close>

record node_record =
  last_seen :: real
  missed_updates :: int

text \<open>
  The dict \<open>nodes\<close>, in insertion order: a key is the tuple \<open>data.split()[1].split(":")\<close>
  made of, a list of strings.
\<close>

type_synonym registry = "(string list \<times> node_record) list"

definition NODE_TIMEOUT :: int where
  "NODE_TIMEOUT = 3"

text \<open>
  \<open>f"{host}:{port}" for host, port in current_nodes\<close>: a key that is not a pair raises
  ValueError.
\<close>

fun format_addrs :: "string list list \<Rightarrow> error + string list" where
  "format_addrs [] = Inr []"
| "format_addrs (k # ks) =
     (case k of
        [host, port] \<Rightarrow>
          (case format_addrs ks of
             Inl e \<Rightarrow> Inl e
           | Inr ls \<Rightarrow> Inr ((host @ '':'' @ port) # ls))
      | _ \<Rightarrow> Inl ValueError)"

definition listing_message :: "string list list \<Rightarrow> error + string" where
  "listing_message current_nodes =
     (case format_addrs current_nodes of
        Inl e \<Rightarrow> Inl e
      | Inr ls \<Rightarrow>
          Inr (''Peer-Node-Address-Listing'' @ [CHR 0x0A] @ join_with [CHR 0x0A] ls @ [CHR 0x0A]))"

subsection \<open>The update cycle\<close>

definition set_missed :: "registry \<Rightarrow> string list \<Rightarrow> int \<Rightarrow> registry" where
  "set_missed nodes node m =
     map (\<lambda>(k, r). if k = node then (k, r\<lparr>missed_updates := m\<rparr>) else (k, r)) nodes"

text \<open>
  The \<open>for node in current_nodes\<close> loop of one pass. \<open>send\<close> is \<open>send_to_node\<close> in this
  pass: whether the push to a node is acknowledged with \<open>OK\<close>. The state is \<open>nodes\<close>,
  \<open>inactive_nodes\<close> and the nodes pushed to so far.
\<close>

fun push_all :: "(string list \<Rightarrow> string \<Rightarrow> bool) \<Rightarrow> string list list \<Rightarrow> string list list \<Rightarrow>
    registry \<times> string list list \<times> string list list \<Rightarrow>
    error + registry \<times> string list list \<times> string list list" where
  "push_all send current_nodes [] st = Inr st"
| "push_all send current_nodes (node # rest) (nodes, inactive_nodes, pushed) =
     (case listing_message current_nodes of
        Inl e \<Rightarrow> Inl e
      | Inr message \<Rightarrow>
          if send node message then
            push_all send current_nodes rest
              (set_missed nodes node 0, inactive_nodes, pushed @ [node])
          else
            (case map_of nodes node of
               None \<Rightarrow> Inl KeyError
             | Some r \<Rightarrow>
                 (let m = missed_updates r + 1;
                      nodes' = set_missed nodes node m
                  in if m \<ge> NODE_TIMEOUT
                     then push_all send current_nodes rest
                            (nodes', inactive_nodes @ [node], pushed @ [node])
                     else push_all send current_nodes rest
                            (nodes', inactive_nodes, pushed @ [node]))))"

text \<open>
  One pass of \<open>update_nodes\<close> under the lock: the registry after it and the nodes it
  pushed to, or the exception that ends the thread.
\<close>

definition update_cycle :: "(string list \<Rightarrow> string \<Rightarrow> bool) \<Rightarrow> registry \<Rightarrow>
    error + registry \<times> string list list" where
  "update_cycle send nodes =
     (let current_nodes = map fst nodes in
      case push_all send current_nodes current_nodes (nodes, [], []) of
        Inl e \<Rightarrow> Inl e
      | Inr (nodes', inactive_nodes, pushed) \<Rightarrow>
          Inr (filter (\<lambda>(k, r). k \<notin> set inactive_nodes) nodes', pushed))"

text \<open>The passes of \<open>while True\<close>, one \<open>send\<close> per pass, with the pushes of each pass.\<close>

fun update_nodes :: "(string list \<Rightarrow> string \<Rightarrow> bool) list \<Rightarrow> registry \<Rightarrow>
    error + registry \<times> string list list list" where
  "update_nodes [] nodes = Inr (nodes, [])"
| "update_nodes (send # sends) nodes =
     (case update_cycle send nodes of
        Inl e \<Rightarrow> Inl e
      | Inr (nodes', pushed) \<Rightarrow>
          (case update_nodes sends nodes' of
             Inl e \<Rightarrow> Inl e
           | Inr (nodes'', later) \<Rightarrow> Inr (nodes'', pushed # later)))"

subsection \<open>Registration\<close>


section \<open>file\_server.py: joining\<close>

text \<open>\<open>sock.recv(n)\<close> at best: the first \<open>n\<close> bytes of what the other side wrote.\<close>

definition recv :: "nat \<Rightarrow> string \<Rightarrow> string" where
  "recv n sent = take n sent"



section \<open>Tokens and example data\<close>


text \<open>
  What a client reads back with \<open>recv(n)\<close> when it sends \<open>message\<close> to a running
  node: the node's connection handler receives the message and the client receives what
  it wrote.
\<close>

definition answer :: "nat \<Rightarrow> env \<Rightarrow> string \<Rightarrow> reply" where
  "answer n peer message =
     Received (recv n (concat (handle_connection peer (Received (recv 1024 message)))))"

text \<open>\<open>str\<close> and \<open>float\<close> on the timestamps of the examples.\<close>

definition str_ts :: "real \<Rightarrow> string" where
  "str_ts t =
     (if t = 5 then ''5.0'' else if t = 50 then ''50.0'' else if t = 100 then ''100.0''
      else if t = 200 then ''200.0'' else ''0.0'')"

definition float_ts :: "string \<Rightarrow> real option" where
  "float_ts s =
     (if s = ''5.0'' then Some 5 else if s = ''50.0'' then Some 50
      else if s = ''100.0'' then Some 100 else if s = ''200.0'' then Some 200
      else if s = ''0.0'' then Some 0 else None)"

text \<open>
  A node at 10.0.0.1:6000 that stores \<open>report.txt\<close>, \<open>a b\<close> and \<open>v 5.0\<close>; beside its
  storage directory lies \<open>secret\<close>. No peer answers.
\<close>

definition node_a :: env where
  "node_a =
     \<lparr>HOST = ''10.0.0.1'', SOCK_PORT = ''6000'', STORAGE = ''storage'',
      files = [''storage/report.txt'' \<mapsto> \<lparr>content = ''figures'', mtime = 100\<rparr>,
               ''storage/a b'' \<mapsto> \<lparr>content = ''hello'', mtime = 100\<rparr>,
               ''storage/v 5.0'' \<mapsto> \<lparr>content = ''version five'', mtime = 100\<rparr>,
               ''storage/../secret'' \<mapsto> \<lparr>content = ''top secret'', mtime = 5\<rparr>],
      listdir = [''report.txt'', ''a b'', ''v 5.0''],
      str_float = str_ts, float_of = float_ts,
      peer_query = (\<lambda>host port message. Raised ''Connection refused''),
      peer_fetch = (\<lambda>host port message. Raised ''Connection refused''),
      clock = 300\<rparr>"

text \<open>
  Two more nodes: 10.0.0.2 stores a newer \<open>report.txt\<close>, \<open>notes.txt\<close> and the
  files \<open>v\<close> and \<open>v 5.0\<close>;
  10.0.0.3 stores \<open>report.txt\<close> with the same timestamp as 10.0.0.2 and an older
  \<open>notes.txt\<close>.
\<close>

definition node_b :: env where
  "node_b =
     \<lparr>HOST = ''10.0.0.2'', SOCK_PORT = ''6000'', STORAGE = ''storage'',
      files = [''storage/report.txt'' \<mapsto> \<lparr>content = ''figures of b'', mtime = 200\<rparr>,
               ''storage/notes.txt'' \<mapsto> \<lparr>content = ''notes of b'', mtime = 200\<rparr>,
               ''storage/v'' \<mapsto> \<lparr>content = ''another file'', mtime = 50\<rparr>,
               ''storage/v 5.0'' \<mapsto> \<lparr>content = ''fifth version'', mtime = 200\<rparr>],
      listdir = [''report.txt'', ''notes.txt'', ''v'', ''v 5.0''],
      str_float = str_ts, float_of = float_ts,
      peer_query = (\<lambda>host port message. Raised ''Connection refused''),
      peer_fetch = (\<lambda>host port message. Raised ''Connection refused''),
      clock = 300\<rparr>"

definition node_c :: env where
  "node_c =
     \<lparr>HOST = ''10.0.0.3'', SOCK_PORT = ''6000'', STORAGE = ''storage'',
      files = [''storage/report.txt'' \<mapsto> \<lparr>content = ''figures of c'', mtime = 200\<rparr>,
               ''storage/notes.txt'' \<mapsto> \<lparr>content = ''notes of c'', mtime = 50\<rparr>],
      listdir = [''report.txt'', ''notes.txt''],
      str_float = str_ts, float_of = float_ts,
      peer_query = (\<lambda>host port message. Raised ''Connection refused''),
      peer_fetch = (\<lambda>host port message. Raised ''Connection refused''),
      clock = 300\<rparr>"

text \<open>The first node with the three nodes reachable, itself included.\<close>

definition network :: "nat \<Rightarrow> string \<Rightarrow> string \<Rightarrow> string \<Rightarrow> reply" where
  "network n host port message =
     (if port \<noteq> ''6000'' then Raised ''Connection refused''
      else if host = ''10.0.0.1'' then answer n node_a message
      else if host = ''10.0.0.2'' then answer n node_b message
      else if host = ''10.0.0.3'' then answer n node_c message
      else Raised ''Connection refused'')"

definition node_a_online :: env where
  "node_a_online = node_a\<lparr>peer_query := network 1024, peer_fetch := network (1024 * 1024)\<rparr>"

definition node_b_online :: env where
  "node_b_online = node_b\<lparr>peer_query := network 1024, peer_fetch := network (1024 * 1024)\<rparr>"

definition peer_z :: "string list" where
  "peer_z = [''10.0.0.3'', ''6000'']"

text \<open>
  A registry of two nodes, and a pass in which only the second acknowledges its push.
\<close>

definition peer_x :: "string list" where
  "peer_x = [''10.0.0.1'', ''6000'']"

definition peer_y :: "string list" where
  "peer_y = [''10.0.0.2'', ''6000'']"

definition registry_xy :: registry where
  "registry_xy = [(peer_x, \<lparr>last_seen = 10, missed_updates = 0\<rparr>),
                  (peer_y, \<lparr>last_seen = 11, missed_updates = 0\<rparr>)]"

definition only_y_acks :: "string list \<Rightarrow> string \<Rightarrow> bool" where
  "only_y_acks node message = (node = peer_y)"

section \<open>Notions the claims about conflict resolution use\<close>

text \<open>
  The claim resolution reads from a stripped reply: the reply itself, its timestamp and
  the owner it names; \<open>None\<close> for a reply that is no \<open>Last-Modified\<close> line of four
  fields with a number in the third.
\<close>

definition parse_claim :: "env \<Rightarrow> string \<Rightarrow> (string \<times> real \<times> string) option" where
  "parse_claim env response =
     (if startswith response ''Last-Modified'' then
        (case split_ws response of
           [u, v, timestamp, node] \<Rightarrow>
             (case float_of env timestamp of
                None \<Rightarrow> None
              | Some t \<Rightarrow> Some (response, t, node))
         | _ \<Rightarrow> None)
      else None)"

text \<open>The claim of the peer behind an entry of \<open>NODES\<close>; \<open>None\<close> when it has no opinion.\<close>

definition peer_claim :: "env \<Rightarrow> string \<Rightarrow> string list \<Rightarrow> (string \<times> real \<times> string) option" where
  "peer_claim env filename entry =
     (case entry of
        [host, port] \<Rightarrow>
          (case peer_query env host port (''Last-Modified-Check '' @ filename @ [CHR 0x0A]) of
             Raised msg \<Rightarrow> None
           | Received raw \<Rightarrow> parse_claim env (strip raw))
      | _ \<Rightarrow> None)"

definition peer_claims :: "env \<Rightarrow> string \<Rightarrow> string list list \<Rightarrow> (string \<times> real \<times> string) list" where
  "peer_claims env filename NODES = List.map_filter (peer_claim env filename) NODES"

definition claim_ts :: "string \<times> real \<times> string \<Rightarrow> real" where
  "claim_ts c = fst (snd c)"

text \<open>The greatest of the local timestamp and the peers' timestamps.\<close>

definition best_ts :: "real \<Rightarrow> (string \<times> real \<times> string) list \<Rightarrow> real" where
  "best_ts t0 cs = fold max (map claim_ts cs) t0"

text \<open>One comparison of the loop: a claim is adopted when it is strictly newer.\<close>

definition adopt :: "resolution \<Rightarrow> string \<times> real \<times> string \<Rightarrow> resolution" where
  "adopt st c =
     (if claim_ts c > fst (snd st) then (Some (fst c), claim_ts c, Some (snd (snd c))) else st)"



section \<open>Facts about the string operations\<close>

lemma startswith_iff: "startswith s p \<longleftrightarrow> (\<exists>v. s = p @ v)"
  by (induction s p rule: startswith.induct) auto

lemma str_in_iff: "str_in sub s \<longleftrightarrow> (\<exists>u v. s = u @ sub @ v)"
proof (induction s)
  case Nil
  then show ?case by simp
next
  case (Cons c cs)
  show ?case
  proof
    assume "str_in sub (c # cs)"
    then consider "startswith (c # cs) sub" | "str_in sub cs" by auto
    then show "\<exists>u v. c # cs = u @ sub @ v"
    proof cases
      case 1
      then obtain v where "c # cs = sub @ v" by (auto simp: startswith_iff)
      then have "c # cs = [] @ sub @ v" by simp
      then show ?thesis by blast
    next
      case 2
      then obtain u v where "cs = u @ sub @ v" using Cons.IH by auto
      then have "c # cs = (c # u) @ sub @ v" by simp
      then show ?thesis by blast
    qed
  next
    assume "\<exists>u v. c # cs = u @ sub @ v"
    then obtain u v where uv: "c # cs = u @ sub @ v" by auto
    show "str_in sub (c # cs)"
    proof (cases u)
      case Nil
      then have "startswith (c # cs) sub" using uv by (auto simp: startswith_iff)
      then show ?thesis by simp
    next
      case (Cons a u')
      then have "cs = u' @ sub @ v" using uv by simp
      then have "str_in sub cs" using Cons.IH by auto
      then show ?thesis by simp
    qed
  qed
qed

lemma str_in_single: "str_in [c] s \<longleftrightarrow> c \<in> set s"
  by (induction s) auto





lemma split_ws_sp: "is_space c \<Longrightarrow> split_ws (c # rest) = split_ws rest"
  by (simp add: split_ws_def)








subsection \<open>The update cycle\<close>

lemma map_fst_set_missed: "map fst (set_missed nodes node m) = map fst nodes"
  by (induction nodes) (auto simp: set_missed_def)

lemma map_of_set_missed:
  "map_of (set_missed nodes node m) k =
     (if k = node then map_option (\<lambda>r. r\<lparr>missed_updates := m\<rparr>) (map_of nodes k)
      else map_of nodes k)"
  by (induction nodes) (auto simp: set_missed_def)

lemma set_missed_entry:
  "(k, r) \<in> set (set_missed nodes node m) \<Longrightarrow>
     (k \<noteq> node \<and> (k, r) \<in> set nodes) \<or> (k = node \<and> missed_updates r = m)"
  by (auto simp: set_missed_def split: if_splits)

lemma push_all_shape:
  "push_all send cur rest (nodes, inact, pushed) = Inr (nodes', inact', pushed') \<Longrightarrow>
     map fst nodes' = map fst nodes \<and> pushed' = pushed @ rest \<and>
     set inact \<subseteq> set inact' \<and> set inact' \<subseteq> set inact \<union> set rest"
proof (induction rest arbitrary: nodes inact pushed)
  case Nil
  then show ?case by simp
next
  case (Cons node rest)
  from Cons.prems show ?case
    by (auto simp: Let_def map_fst_set_missed split: sum.splits option.splits if_splits
        dest!: Cons.IH)
qed

lemma push_all_settled:
  "push_all send cur rest (nodes, inact, pushed) = Inr (nodes', inact', pushed') \<Longrightarrow>
   (\<forall>(k, r) \<in> set nodes. k \<in> set pushed \<longrightarrow> missed_updates r < NODE_TIMEOUT \<or> k \<in> set inact) \<Longrightarrow>
   (\<forall>(k, r) \<in> set nodes'. k \<in> set pushed' \<longrightarrow> missed_updates r < NODE_TIMEOUT \<or> k \<in> set inact')"
proof (induction rest arbitrary: nodes inact pushed)
  case Nil
  then show ?case by simp
next
  case (Cons node rest)
  obtain message where msg: "listing_message cur = Inr message"
    using Cons.prems(1) by (auto split: sum.splits)
  show ?case
  proof (cases "send node message")
    case True
    then have run: "push_all send cur rest (set_missed nodes node 0, inact, pushed @ [node]) =
        Inr (nodes', inact', pushed')"
      using Cons.prems(1) msg by simp
    have "\<forall>(k, r) \<in> set (set_missed nodes node 0). k \<in> set (pushed @ [node]) \<longrightarrow>
        missed_updates r < NODE_TIMEOUT \<or> k \<in> set inact"
      using Cons.prems(2) by (auto dest!: set_missed_entry simp: NODE_TIMEOUT_def)
    then show ?thesis using Cons.IH [OF run] by blast
  next
    case False
    then obtain r where r: "map_of nodes node = Some r"
      using Cons.prems(1) msg by (auto split: option.splits)
    let ?m = "missed_updates r + 1"
    show ?thesis
    proof (cases "?m \<ge> NODE_TIMEOUT")
      case True
      then have run: "push_all send cur rest (set_missed nodes node ?m, inact @ [node], pushed @ [node]) =
          Inr (nodes', inact', pushed')"
        using Cons.prems(1) msg False r by (simp add: Let_def)
      have "\<forall>(k, r) \<in> set (set_missed nodes node ?m). k \<in> set (pushed @ [node]) \<longrightarrow>
          missed_updates r < NODE_TIMEOUT \<or> k \<in> set (inact @ [node])"
        using Cons.prems(2) by (auto dest!: set_missed_entry)
      then show ?thesis using Cons.IH [OF run] by blast
    next
      case lt: False
      then have run: "push_all send cur rest (set_missed nodes node ?m, inact, pushed @ [node]) =
          Inr (nodes', inact', pushed')"
        using Cons.prems(1) msg False r by (simp add: Let_def)
      have "\<forall>(k, r) \<in> set (set_missed nodes node ?m). k \<in> set (pushed @ [node]) \<longrightarrow>
          missed_updates r < NODE_TIMEOUT \<or> k \<in> set inact"
        using Cons.prems(2) lt by (auto dest!: set_missed_entry)
      then show ?thesis using Cons.IH [OF run] by blast
    qed
  qed
qed

lemma update_cycle_below_threshold:
  assumes "update_cycle send nodes = Inr (nodes', pushed)"
  shows "\<forall>(k, r) \<in> set nodes'. missed_updates r < NODE_TIMEOUT"
proof -
  obtain ns inact where run: "push_all send (map fst nodes) (map fst nodes) (nodes, [], []) = Inr (ns, inact, pushed)"
    and res: "nodes' = filter (\<lambda>(k, r). k \<notin> set inact) ns"
    using assms by (auto simp: update_cycle_def Let_def split: sum.splits)
  have shape: "map fst ns = map fst nodes" "pushed = map fst nodes"
    using push_all_shape [OF run] by auto
  have "\<forall>(k, r) \<in> set ns. k \<in> set pushed \<longrightarrow> missed_updates r < NODE_TIMEOUT \<or> k \<in> set inact"
    using push_all_settled [OF run] by simp
  moreover have "\<forall>(k, r) \<in> set ns. k \<in> set pushed"
    using shape by (metis (mono_tags, lifting) case_prodI2 fst_conv image_eqI list.set_map)
  ultimately show ?thesis using res by auto
qed

lemma push_all_other:
  "k \<notin> set rest \<Longrightarrow>
   push_all send cur rest (nodes, inact, pushed) = Inr (nodes', inact', pushed') \<Longrightarrow>
   map_of nodes' k = map_of nodes k \<and> (k \<in> set inact' \<longleftrightarrow> k \<in> set inact)"
proof (induction rest arbitrary: nodes inact pushed)
  case Nil
  then show ?case by simp
next
  case (Cons node rest)
  from Cons.prems show ?case
    by (auto simp: Let_def map_of_set_missed split: sum.splits option.splits if_splits
        dest!: Cons.IH [rotated])
qed

lemma push_all_failed:
  "distinct rest \<Longrightarrow> k \<in> set rest \<Longrightarrow> (\<forall>message. \<not> send k message) \<Longrightarrow>
   map_of nodes k = Some r \<Longrightarrow>
   push_all send cur rest (nodes, inact, pushed) = Inr (nodes', inact', pushed') \<Longrightarrow>
   map_of nodes' k = Some (r\<lparr>missed_updates := missed_updates r + 1\<rparr>) \<and>
   (k \<in> set inact' \<longleftrightarrow> k \<in> set inact \<or> missed_updates r + 1 \<ge> NODE_TIMEOUT)"
proof (induction rest arbitrary: nodes inact pushed)
  case Nil
  then show ?case by simp
next
  case (Cons node rest)
  obtain message where msg: "listing_message cur = Inr message"
    using Cons.prems(5) by (auto split: sum.splits)
  show ?case
  proof (cases "node = k")
    case True
    then have notin: "k \<notin> set rest" using Cons.prems(1) by simp
    let ?m = "missed_updates r + 1"
    have fail: "\<not> send node message" using True Cons.prems(3) by simp
    show ?thesis
    proof (cases "?m \<ge> NODE_TIMEOUT")
      case True
      then have run: "push_all send cur rest (set_missed nodes k ?m, inact @ [k], pushed @ [k]) =
          Inr (nodes', inact', pushed')"
        using Cons.prems(4,5) msg fail \<open>node = k\<close> by (simp add: Let_def)
      show ?thesis using push_all_other [OF notin run] True Cons.prems(4)
        by (simp add: map_of_set_missed)
    next
      case False
      then have run: "push_all send cur rest (set_missed nodes k ?m, inact, pushed @ [k]) =
          Inr (nodes', inact', pushed')"
        using Cons.prems(4,5) msg fail \<open>node = k\<close> by (simp add: Let_def)
      show ?thesis using push_all_other [OF notin run] False Cons.prems(4)
        by (simp add: map_of_set_missed)
    qed
  next
    case False
    then have k: "k \<in> set rest" "distinct rest" using Cons.prems(1,2) by auto
    from Cons.prems(5) msg False Cons.prems(4) show ?thesis
      by (auto simp: Let_def map_of_set_missed split: option.splits if_splits
          dest!: Cons.IH [OF k(2) k(1) Cons.prems(3), rotated])
  qed
qed

lemma map_of_filter_keys:
  "map_of (filter (\<lambda>(k, r). k \<notin> S) ns) k = (if k \<in> S then None else map_of ns k)"
  by (induction ns) auto

lemma update_cycle_keys:
  assumes "update_cycle send nodes = Inr (nodes', pushed)"
  shows "pushed = map fst nodes" and "fst ` set nodes' \<subseteq> fst ` set nodes"
    and "distinct (map fst nodes) \<Longrightarrow> distinct (map fst nodes')"
proof -
  obtain ns inact where run: "push_all send (map fst nodes) (map fst nodes) (nodes, [], []) = Inr (ns, inact, pushed)"
    and res: "nodes' = filter (\<lambda>(k, r). k \<notin> set inact) ns"
    using assms by (auto simp: update_cycle_def Let_def split: sum.splits)
  have shape: "map fst ns = map fst nodes" "pushed = map fst nodes"
    using push_all_shape [OF run] by auto
  show "pushed = map fst nodes" by fact
  have "set (map fst nodes') \<subseteq> set (map fst ns)" using res by auto
  then show "fst ` set nodes' \<subseteq> fst ` set nodes" using shape(1) by (metis list.set_map)
  show "distinct (map fst nodes) \<Longrightarrow> distinct (map fst nodes')"
    using res shape(1) by (metis distinct_map_filter)
qed

lemma update_cycle_failed:
  assumes "update_cycle send nodes = Inr (nodes', pushed)"
    and "distinct (map fst nodes)" and "map_of nodes k = Some r"
    and "\<forall>message. \<not> send k message"
  shows "map_of nodes' k =
     (if missed_updates r + 1 \<ge> NODE_TIMEOUT then None
      else Some (r\<lparr>missed_updates := missed_updates r + 1\<rparr>))"
proof -
  obtain ns inact where run: "push_all send (map fst nodes) (map fst nodes) (nodes, [], []) = Inr (ns, inact, pushed)"
    and res: "nodes' = filter (\<lambda>(k, r). k \<notin> set inact) ns"
    using assms(1) by (auto simp: update_cycle_def Let_def split: sum.splits)
  have k: "k \<in> set (map fst nodes)"
    using assms(3) by (metis map_of_eq_None_iff option.distinct(1) list.set_map)
  show ?thesis
    using push_all_failed [OF assms(2) k assms(4) assms(3) run] res
    by (simp add: map_of_filter_keys)
qed

lemma update_cycle_absent:
  assumes "update_cycle send nodes = Inr (nodes', pushed)" and "map_of nodes k = None"
  shows "map_of nodes' k = None \<and> k \<notin> set pushed"
proof -
  have "k \<notin> fst ` set nodes" using assms(2) by (simp add: map_of_eq_None_iff)
  then have "k \<notin> fst ` set nodes'" "k \<notin> set pushed"
    using update_cycle_keys(1,2) [OF assms(1)] by auto
  then show ?thesis by (simp add: map_of_eq_None_iff)
qed

lemma update_nodes_absent:
  "update_nodes sends nodes = Inr (nodes', pushes) \<Longrightarrow> map_of nodes k = None \<Longrightarrow>
   map_of nodes' k = None \<and> (\<forall>pushed \<in> set pushes. k \<notin> set pushed)"
proof (induction sends arbitrary: nodes pushes)
  case Nil
  then show ?case by simp
next
  case (Cons send sends)
  from Cons.prems(1) obtain n1 p1 later where
    c: "update_cycle send nodes = Inr (n1, p1)" and
    u: "update_nodes sends n1 = Inr (nodes', later)" and l: "pushes = p1 # later"
    by (auto split: sum.splits)
  have a: "map_of n1 k = None" "k \<notin> set p1"
    using update_cycle_absent [OF c Cons.prems(2)] by auto
  show ?case using Cons.IH [OF u a(1)] a(2) l by simp
qed

lemma update_nodes_distinct:
  "update_nodes sends nodes = Inr (nodes', pushes) \<Longrightarrow> distinct (map fst nodes) \<Longrightarrow>
   distinct (map fst nodes')"
proof (induction sends arbitrary: nodes pushes)
  case Nil
  then show ?case by simp
next
  case (Cons send sends)
  from Cons.prems(1) obtain n1 p1 later where
    c: "update_cycle send nodes = Inr (n1, p1)" and
    u: "update_nodes sends n1 = Inr (nodes', later)"
    by (auto split: sum.splits)
  show ?case using Cons.IH [OF u update_cycle_keys(3) [OF c Cons.prems(2)]] .
qed

lemma update_nodes_below_threshold:
  "update_nodes sends nodes = Inr (nodes', pushes) \<Longrightarrow> sends \<noteq> [] \<Longrightarrow>
   \<forall>(k, r) \<in> set nodes'. missed_updates r < NODE_TIMEOUT"
proof (induction sends arbitrary: nodes pushes)
  case Nil
  then show ?case by simp
next
  case (Cons send sends)
  from Cons.prems(1) obtain n1 p1 later where
    c: "update_cycle send nodes = Inr (n1, p1)" and
    u: "update_nodes sends n1 = Inr (nodes', later)"
    by (auto split: sum.splits)
  show ?case
  proof (cases sends)
    case Nil
    then show ?thesis using u update_cycle_below_threshold [OF c] by simp
  next
    case (Cons a list)
    then show ?thesis using Cons.IH [OF u] by simp
  qed
qed

lemma three_failures:
  assumes dict: "distinct (map fst nodes)"
    and reg: "map_of nodes k = Some r" and nonneg: "0 \<le> missed_updates r"
    and f1: "\<forall>message. \<not> s1 k message"
    and f2: "\<forall>message. \<not> s2 k message"
    and f3: "\<forall>message. \<not> s3 k message"
    and run: "update_nodes [s1, s2, s3] nodes = Inr (nodes3, pushes3)"
  shows "map_of nodes3 k = None"
proof -
  from run obtain n1 p1 n2 p2 p3 where
    c1: "update_cycle s1 nodes = Inr (n1, p1)" and
    c2: "update_cycle s2 n1 = Inr (n2, p2)" and
    c3: "update_cycle s3 n2 = Inr (nodes3, p3)"
    by (auto split: sum.splits)
  have d1: "distinct (map fst n1)" using update_cycle_keys(3) [OF c1 dict] .
  have d2: "distinct (map fst n2)" using update_cycle_keys(3) [OF c2 d1] .
  note s1 = update_cycle_failed [OF c1 dict reg f1]
  show ?thesis
  proof (cases "missed_updates r + 1 \<ge> NODE_TIMEOUT")
    case True
    then have "map_of n1 k = None" using s1 by simp
    then have "map_of n2 k = None" using update_cycle_absent [OF c2] by simp
    then show ?thesis using update_cycle_absent [OF c3] by simp
  next
    case False
    then have r1: "map_of n1 k = Some (r\<lparr>missed_updates := missed_updates r + 1\<rparr>)"
      using s1 by simp
    note s2 = update_cycle_failed [OF c2 d1 r1 f2]
    show ?thesis
    proof (cases "missed_updates r + 2 \<ge> NODE_TIMEOUT")
      case True
      then have "map_of n2 k = None" using s2 by simp
      then show ?thesis using update_cycle_absent [OF c3] by simp
    next
      case False
      then have r2: "map_of n2 k =
          Some (r\<lparr>missed_updates := missed_updates r + 1, missed_updates := missed_updates r + 2\<rparr>)"
        using s2 by simp
      show ?thesis using update_cycle_failed [OF c3 d2 r2 f3] nonneg
        by (simp add: NODE_TIMEOUT_def)
    qed
  qed
qed

subsection \<open>Registration\<close>








subsection \<open>Conflict resolution\<close>

lemma query_peer_adopt:
  "query_peer env filename host port st =
     (case peer_claim env filename [host, port] of None \<Rightarrow> st | Some c \<Rightarrow> adopt st c)"
  by (auto simp: query_peer_def peer_claim_def parse_claim_def adopt_def claim_ts_def Let_def
      split: reply.splits list.splits option.splits)

lemma pair_entry: "length e = 2 \<Longrightarrow> \<exists>host port. e = [host, port]"
  by (cases e; cases "tl e"; cases "tl (tl e)") auto

lemma poll_pairs:
  "\<forall>e \<in> set NODES. length e = 2 \<Longrightarrow>
   poll env filename NODES (st, seen) =
     Inr (foldl adopt st (peer_claims env filename NODES),
          seen @ map (\<lambda>e. (e ! 0, e ! 1)) NODES)"
proof (induction NODES arbitrary: st seen)
  case Nil
  then show ?case by (simp add: peer_claims_def List.map_filter_simps)
next
  case (Cons e NODES)
  then obtain host port where e: "e = [host, port]" using pair_entry [of e] by auto
  have rest: "\<forall>e \<in> set NODES. length e = 2" using Cons.prems by simp
  show ?case
    using Cons.IH [OF rest] e
    by (simp add: query_peer_adopt peer_claims_def List.map_filter_simps split: option.splits)
qed


lemma adopt_ts: "fst (snd (adopt st c)) = max (fst (snd st)) (claim_ts c)"
  by (simp add: adopt_def)

lemma foldl_adopt_ts: "fst (snd (foldl adopt st cs)) = best_ts (fst (snd st)) cs"
  by (induction cs arbitrary: st) (simp_all add: best_ts_def adopt_ts max.commute)

lemma best_ts_Max: "best_ts t0 cs = Max (insert t0 (claim_ts ` set cs))"
proof -
  have "Max (set (t0 # map claim_ts cs)) = fold max (map claim_ts cs) t0"
    by (rule Max.set_eq_fold)
  then show ?thesis by (simp add: best_ts_def)
qed


lemma best_ts_eq_local: "best_ts t0 cs = t0 \<longleftrightarrow> (\<forall>c \<in> set cs. claim_ts c \<le> t0)"
  unfolding best_ts_Max by (subst Max_eq_iff) auto

lemma foldl_adopt_unchanged:
  "\<forall>c \<in> set cs. claim_ts c \<le> fst (snd st) \<Longrightarrow> foldl adopt st cs = st"
  by (induction cs arbitrary: st) (simp_all add: adopt_def)



lemma latest_timestamp_pairs:
  assumes "\<forall>e \<in> set NODES. length e = 2"
    and "local_ts env (get_timestamp env filename) = Inr t0"
  shows "latest_timestamp env NODES filename =
     Inr (fst (foldl adopt (get_timestamp env filename, t0, None) (peer_claims env filename NODES)),
          snd (snd (foldl adopt (get_timestamp env filename, t0, None) (peer_claims env filename NODES))),
          map (\<lambda>e. (e ! 0, e ! 1)) NODES)"
  using assms(2) poll_pairs [OF assms(1), of env filename "(get_timestamp env filename, t0, None)" "[]"]
  by (simp add: latest_timestamp_def Let_def)



lemma resolution_local_wins:
  assumes "\<forall>e \<in> set NODES. length e = 2"
    and "local_ts env (get_timestamp env filename) = Inr t0"
    and "best_ts t0 (peer_claims env filename NODES) = t0"
  shows "latest_timestamp env NODES filename =
     Inr (get_timestamp env filename, None, map (\<lambda>e. (e ! 0, e ! 1)) NODES)"
proof -
  have "\<forall>c \<in> set (peer_claims env filename NODES).
      claim_ts c \<le> fst (snd (get_timestamp env filename, t0, None :: string option))"
    using assms(3) by (simp add: best_ts_eq_local)
  then have "foldl adopt (get_timestamp env filename, t0, None) (peer_claims env filename NODES) =
      (get_timestamp env filename, t0, None)"
    by (rule foldl_adopt_unchanged)
  then show ?thesis using latest_timestamp_pairs [OF assms(1,2)] by simp
qed





lemma peer_claims_set:
  "c \<in> set (peer_claims env filename NODES) \<longleftrightarrow> (\<exists>e \<in> set NODES. peer_claim env filename e = Some c)"
  unfolding peer_claims_def
  by (induction NODES) (auto simp: List.map_filter_simps split: option.splits)





subsection \<open>Resolution on names without whitespace\<close>








lemma unreachable_peers_keep_local:
  assumes "\<forall>e \<in> set NODES. length e = 2"
    and "local_ts env (get_timestamp env filename) = Inr t0"
    and "\<forall>host port message. \<exists>msg. peer_query env host port message = Raised msg"
  shows "latest_timestamp env NODES filename =
     Inr (get_timestamp env filename, None, map (\<lambda>e. (e ! 0, e ! 1)) NODES)"
proof -
  have "peer_claim env filename e = None" for e
  proof (cases "length e = 2")
    case True
    then obtain host port where e: "e = [host, port]" using pair_entry by blast
    obtain msg where "peer_query env host port (''Last-Modified-Check '' @ filename @ [CHR 0x0A]) = Raised msg"
      using assms(3) by blast
    then show ?thesis using e by (simp add: peer_claim_def)
  next
    case False
    then show ?thesis by (auto simp: peer_claim_def split: list.splits)
  qed
  then have "peer_claims env filename NODES = []"
    using peer_claims_set [of _ env filename NODES] by (cases "peer_claims env filename NODES") auto
  then have "best_ts t0 (peer_claims env filename NODES) = t0" by (simp add: best_ts_def)
  then show ?thesis by (rule resolution_local_wins [OF assms(1,2)])
qed

lemma read_fetch_failure:
  assumes "validate_filename filename"
    and "latest_timestamp env NODES filename = Inr (Some claim, Some node, seen)"
    and "node \<noteq> []" and "node \<noteq> own_address env"
    and "split_on CHR '':'' node = [host, port]"
    and "peer_fetch env host port (''File-Provision-Request '' @ filename @ [CHR 0x0A]) = Raised msg"
  shows "get_file env NODES filename = (files env, Inr (500, ''Error downloading file: '' @ msg))"
  using assms by (simp add: get_file_def Let_def)

subsection \<open>Listings and joining\<close>





























subsection \<open>The query a node sends to itself\<close>






text \<open>
  With whitespace in the name the node asks itself about another file: \<open>v 5.0\<close> is
  stored with timestamp 200, the query the node receives names \<open>v\<close>, and the answer,
  timestamp 50, beats the 5 read from the node's own claim.
\<close>

lemma self_query_spaced_name:
  "latest_timestamp node_b_online [] ''v 5.0'' =
     Inr (Some ''Last-Modified v 5.0 200.0 10.0.0.2:6000'', None, []) \<and>
   latest_timestamp node_b_online [peer_y] ''v 5.0'' =
     Inr (Some ''Last-Modified v 50.0 10.0.0.2:6000'', Some ''10.0.0.2:6000'',
          [(''10.0.0.2'', ''6000'')])"
  by (simp add: latest_timestamp_def local_ts_def get_timestamp_def validate_filename_def
      node_b_def node_b_online_def network_def answer_def recv_def
      os_path_join_def own_address_def split_ws_def is_space_def whitespace_def index_def
      handle_connection_def handle_socket_request_def dispatch_def strip_def query_peer_def
      str_ts_def float_ts_def peer_y_def)

section \<open>Claims\<close>

text \<open>
  C4. For every filename \<open>f\<close>, \<open>validate_filename\<close> rejects \<open>f\<close> exactly when \<open>f\<close> is
  empty, or has at least 255 characters, or contains a slash, or contains a backslash, or
  contains two consecutive dots.
\<close>

theorem validate_filename_rejects_iff:
  "(\<not> validate_filename f) =
     (f = [] \<or> 255 \<le> length f \<or> CHR ''/'' \<in> set f \<or> CHR 0x5C \<in> set f \<or>
      (\<exists>u v. f = u @ ''..'' @ v))"
  unfolding validate_filename_def str_in_single str_in_iff [of "''..''"] by auto

text \<open>
  C2. The claim: at every boundary that touches the filesystem the filename is validated
  before any file access, so a name with a path separator or a parent-directory segment
  never reaches \<open>os.path.join\<close> with the storage directory. The file fetch request does
  not validate: \<open>File-Provision-Request ../secret\<close> is answered with the bytes of the
  file beside the storage directory, while the timestamp query for the same name, which
  goes through \<open>get_timestamp\<close>, is refused.
\<close>

theorem file_fetch_skips_validation:
  "\<not> validate_filename ''../secret'' \<and>
   handle_socket_request node_a ''File-Provision-Request ../secret'' = [''top secret''] \<and>
   handle_socket_request node_a ''Last-Modified-Check ../secret'' = [''File not found'']"
  by (simp add: handle_socket_request_def dispatch_def get_timestamp_def
      validate_filename_def node_a_def os_path_join_def split_ws_def is_space_def
      whitespace_def index_def)

text \<open>
  C10. A request that begins with none of \<open>Last-Modified-Check\<close>,
  \<open>File-Provision-Request\<close> and \<open>Index-Listing-Request\<close> raises nothing and is answered
  with nothing: the dispatcher writes no byte, not even the error sentinel, and so does
  the connection handler for any received text that strips to such a request. The
  sentinel is written exactly when the dispatch raises; otherwise what the dispatch wrote
  is all that is written.
\<close>

theorem unknown_request_gets_no_reply:
  assumes "\<not> startswith data ''Last-Modified-Check''"
    and "\<not> startswith data ''File-Provision-Request''"
    and "\<not> startswith data ''Index-Listing-Request''"
  shows "dispatch env data = Inr [] \<and>
         handle_socket_request env data = [] \<and>
         (\<forall>raw. strip raw = data \<longrightarrow> handle_connection env (Received raw) = []) \<and>
         (\<forall>d sent. dispatch env d = Inr sent \<longrightarrow> handle_socket_request env d = sent) \<and>
         (\<forall>d e. dispatch env d = Inl e \<longrightarrow>
            handle_socket_request env d = [''Error processing request''])"
  using assms by (simp add: handle_socket_request_def dispatch_def handle_connection_def)

theorem unknown_request_gets_no_reply_witness:
  "handle_socket_request node_a ''Peer-Node-Address-Listing'' = [] \<and>
   handle_connection node_a
     (Received (''Peer-Node-Address-Listing'' @ [CHR 0x0A] @ ''10.0.0.1:6000'' @ [CHR 0x0A])) = [] \<and>
   dispatch node_a ''Last-Modified-Check'' = Inl IndexError \<and>
   handle_socket_request node_a ''Last-Modified-Check'' = [''Error processing request'']"
  using unknown_request_gets_no_reply [of "''Peer-Node-Address-Listing''" node_a]
    unknown_request_gets_no_reply
      [of "''Peer-Node-Address-Listing'' @ [CHR 0x0A] @ ''10.0.0.1:6000''" node_a]
  by (simp add: strip_def is_space_def whitespace_def dispatch_def split_ws_def index_def)

text \<open>
  C3. A registered node whose push fails in three consecutive passes is gone from the
  registry after them, and no later pass pushes to it or brings it back. Within a pass,
  a failed push raises the counter by one; the node is deleted in the very pass in which
  the counter reaches the threshold, and stays registered, with the raised counter, while
  the counter is below it. After every completed pass every remaining entry has
  \<open>missed_updates\<close> below the threshold. The registry is a dict (its keys are distinct)
  and a counter is never negative.
\<close>

theorem failed_pushes_evict:
  assumes "distinct (map fst nodes)"
    and "map_of nodes k = Some r"
    and "0 \<le> missed_updates r"
    and "\<forall>message. \<not> s1 k message"
    and "\<forall>message. \<not> s2 k message"
    and "\<forall>message. \<not> s3 k message"
    and "update_nodes [s1, s2, s3] nodes = Inr (nodes3, pushes3)"
    and "update_nodes later nodes3 = Inr (nodes', pushes')"
  shows "k \<notin> fst ` set nodes3 \<and> k \<notin> fst ` set nodes' \<and>
         (\<forall>pushed \<in> set pushes'. k \<notin> set pushed) \<and>
         (\<forall>(k', r') \<in> set nodes3. missed_updates r' < NODE_TIMEOUT) \<and>
         (\<forall>send ns ns' pushed q. update_cycle send ns = Inr (ns', pushed) \<longrightarrow>
            (\<forall>(k', r') \<in> set ns'. missed_updates r' < NODE_TIMEOUT) \<and>
            (distinct (map fst ns) \<and> map_of ns k = Some q \<and> (\<forall>message. \<not> send k message) \<longrightarrow>
               map_of ns' k =
                 (if NODE_TIMEOUT \<le> missed_updates q + 1 then None
                  else Some (q\<lparr>missed_updates := missed_updates q + 1\<rparr>))))"
proof -
  have gone: "map_of nodes3 k = None"
    using three_failures [OF assms(1-7)] .
  have later: "map_of nodes' k = None" "\<forall>pushed \<in> set pushes'. k \<notin> set pushed"
    using update_nodes_absent [OF assms(8) gone] by auto
  have below: "\<forall>(k', r') \<in> set nodes3. missed_updates r' < NODE_TIMEOUT"
    using update_nodes_below_threshold [OF assms(7)] by simp
  have pass: "\<forall>send ns ns' pushed q. update_cycle send ns = Inr (ns', pushed) \<longrightarrow>
            (\<forall>(k', r') \<in> set ns'. missed_updates r' < NODE_TIMEOUT) \<and>
            (distinct (map fst ns) \<and> map_of ns k = Some q \<and> (\<forall>message. \<not> send k message) \<longrightarrow>
               map_of ns' k =
                 (if NODE_TIMEOUT \<le> missed_updates q + 1 then None
                  else Some (q\<lparr>missed_updates := missed_updates q + 1\<rparr>)))"
    using update_cycle_below_threshold update_cycle_failed by blast
  show ?thesis
    using gone later below pass by (simp add: map_of_eq_None_iff)
qed

theorem failed_pushes_evict_witness:
  "update_nodes [only_y_acks, only_y_acks, only_y_acks] registry_xy =
     Inr ([(peer_y, \<lparr>last_seen = 11, missed_updates = 0\<rparr>)],
          [[peer_x, peer_y], [peer_x, peer_y], [peer_x, peer_y]]) \<and>
   update_nodes [only_y_acks] [(peer_y, \<lparr>last_seen = 11, missed_updates = 0\<rparr>)] =
     Inr ([(peer_y, \<lparr>last_seen = 11, missed_updates = 0\<rparr>)], [[peer_y]]) \<and>
   peer_x \<notin> fst ` set [(peer_y, \<lparr>last_seen = 11, missed_updates = 0\<rparr>)] \<and>
   peer_x \<notin> set [peer_y]"
proof -
  note ev = update_cycle_def registry_xy_def only_y_acks_def peer_x_def peer_y_def
    listing_message_def set_missed_def NODE_TIMEOUT_def
  have dict: "distinct (map fst registry_xy)" by (simp add: ev)
  have reg: "map_of registry_xy peer_x = Some \<lparr>last_seen = 10, missed_updates = 0\<rparr>"
    by (simp add: ev)
  have nonneg: "0 \<le> missed_updates \<lparr>last_seen = 10, missed_updates = 0\<rparr>" by simp
  have fails: "\<forall>message. \<not> only_y_acks peer_x message" by (simp add: ev)
  have three: "update_nodes [only_y_acks, only_y_acks, only_y_acks] registry_xy =
     Inr ([(peer_y, \<lparr>last_seen = 11, missed_updates = 0\<rparr>)],
          [[peer_x, peer_y], [peer_x, peer_y], [peer_x, peer_y]])"
    by (simp add: ev)
  have fourth: "update_nodes [only_y_acks] [(peer_y, \<lparr>last_seen = 11, missed_updates = 0\<rparr>)] =
     Inr ([(peer_y, \<lparr>last_seen = 11, missed_updates = 0\<rparr>)], [[peer_y]])"
    by (simp add: ev)
  from failed_pushes_evict [OF dict reg nonneg fails fails fails three fourth]
  show ?thesis using three fourth by simp
qed






text \<open>
  C1. The claim: for every filename, resolution returns the claim whose timestamp is the
  greatest of the local timestamp and the peers' timestamps. The local timestamp is read
  back from the third whitespace-separated field of the local claim, and a valid filename
  may contain whitespace. The node stores \<open>v 5.0\<close> with timestamp 100; resolution
  reads 5 as the local timestamp, the peer answers the query with its file \<open>v\<close> of
  timestamp 50, and the peer's claim is returned although the local copy is newer. For
  \<open>a b\<close> the field is no number and resolution raises.
\<close>

theorem resolution_misreads_local_timestamp:
  "validate_filename ''v 5.0'' \<and>
   get_timestamp node_a_online ''v 5.0'' = Some ''Last-Modified v 5.0 100.0 10.0.0.1:6000'' \<and>
   local_ts node_a_online (get_timestamp node_a_online ''v 5.0'') = Inr 5 \<and>
   latest_timestamp node_a_online [peer_y] ''v 5.0'' =
     Inr (Some ''Last-Modified v 50.0 10.0.0.2:6000'', Some ''10.0.0.2:6000'',
          [(''10.0.0.2'', ''6000'')]) \<and>
   latest_timestamp node_a_online [peer_y] ''a b'' = Inl ValueError"
  by (simp add: latest_timestamp_def local_ts_def get_timestamp_def validate_filename_def
      node_a_def node_b_def node_a_online_def network_def answer_def recv_def
      os_path_join_def own_address_def split_ws_def is_space_def whitespace_def index_def
      handle_connection_def handle_socket_request_def dispatch_def strip_def query_peer_def
      str_ts_def float_ts_def peer_y_def peer_z_def)

text \<open>
  C5. The claim: for every filename, when every peer query raises, resolution returns
  the unmodified local claim. For the stored file \<open>a b\<close> the local claim exists, no
  peer answers, and resolution raises instead of returning it.
\<close>

theorem unreachable_peers_spaced_name:
  "validate_filename ''a b'' \<and>
   get_timestamp node_a ''a b'' = Some ''Last-Modified a b 100.0 10.0.0.1:6000'' \<and>
   (\<forall>host port message. peer_query node_a host port message = Raised ''Connection refused'') \<and>
   latest_timestamp node_a [peer_y, peer_z] ''a b'' = Inl ValueError"
  by (simp add: latest_timestamp_def local_ts_def get_timestamp_def validate_filename_def
      node_a_def node_b_def node_a_online_def network_def answer_def recv_def
      os_path_join_def own_address_def split_ws_def is_space_def whitespace_def index_def
      handle_connection_def handle_socket_request_def dispatch_def strip_def query_peer_def
      str_ts_def float_ts_def peer_y_def peer_z_def)

text \<open>
  C7. The claim: on a valid filename the failure of the final fetch from the remote owner
  is the only hard failure of a read. Reading the stored file \<open>a b\<close> fails, with no
  peer in the list and no fetch attempted: resolution raises while it reads its own claim,
  the exception leaves the handler and the read is answered with status 500.
\<close>

theorem read_fails_without_fetch:
  "validate_filename ''a b'' \<and>
   files node_a (os_path_join (STORAGE node_a) ''a b'') =
     Some \<lparr>content = ''hello'', mtime = 100\<rparr> \<and>
   get_file node_a [] ''a b'' = (files node_a, Inl ValueError) \<and>
   http_status (snd (get_file node_a [] ''a b'')) = 500"
  by (simp add: get_file_def http_status_def latest_timestamp_def local_ts_def get_timestamp_def validate_filename_def
      node_a_def node_b_def node_a_online_def network_def answer_def recv_def
      os_path_join_def own_address_def split_ws_def is_space_def whitespace_def index_def
      handle_connection_def handle_socket_request_def dispatch_def strip_def query_peer_def
      str_ts_def float_ts_def peer_y_def peer_z_def)




end
